theory Spec2Isabelle
  imports Complex_Main
begin

section \<open>Mesh normalisation and render planning of \<^verbatim>\<open>script.py\<close>\<close>

text \<open>
  The script scales an imported mesh so that it fits a block whose dimensions are given
  in part, centres it, and derives for each of five orthographic views the camera's
  projection extent and the pixel size of the rendered image.

  Conventions of the embedding:
  \<^item> Python floats are idealised as the reals: every statement below is one of exact
    arithmetic, and rounding of the machine's floating point is not modelled.
  \<^item> A Python dictionary is an association list in insertion order; lookup takes the
    first entry of a key, and a well-formed dictionary has distinct keys.
  \<^item> Python's \<^verbatim>\<open>None\<close> as a dictionary value or argument is \<open>None\<close> of an option type.
  \<^item> Every exception the modelled code can raise is a value of \<open>error\<close>, returned as
    \<open>Inl\<close>; a normal return is \<open>Inr\<close>.
\<close>

subsection \<open>Python values, dictionaries and built-ins\<close>

datatype error =
    ValueError string
  | KeyError string
  | TypeError
  | ZeroDivisionError

type_synonym 'v dict = "(string \<times> 'v) list"

text \<open>\<^verbatim>\<open>d[k]\<close>: raises \<^verbatim>\<open>KeyError\<close> when the key is absent.\<close>

definition dict_get :: "'v dict \<Rightarrow> string \<Rightarrow> error + 'v" where
  "dict_get d k = (case map_of d k of None \<Rightarrow> Inl (KeyError k) | Some v \<Rightarrow> Inr v)"

text \<open>\<^verbatim>\<open>d.get(k, default)\<close>: the default is used only when the key is absent; a key
  that is present with the value \<^verbatim>\<open>None\<close> yields \<^verbatim>\<open>None\<close>.\<close>

definition dict_get_default :: "'v dict \<Rightarrow> string \<Rightarrow> 'v \<Rightarrow> 'v" where
  "dict_get_default d k dflt = (case map_of d k of None \<Rightarrow> dflt | Some v \<Rightarrow> v)"

text \<open>\<^verbatim>\<open>max(xs)\<close> and \<^verbatim>\<open>min(xs)\<close> of an iterable: \<^verbatim>\<open>ValueError\<close> when it is empty.\<close>

fun py_max :: "real list \<Rightarrow> error + real" where
  "py_max [] = Inl (ValueError ''max() arg is an empty sequence'')"
| "py_max (x # xs) = Inr (fold max xs x)"

fun py_min :: "real list \<Rightarrow> error + real" where
  "py_min [] = Inl (ValueError ''min() arg is an empty sequence'')"
| "py_min (x # xs) = Inr (fold min xs x)"

text \<open>\<^verbatim>\<open>a / b\<close> on floats: \<^verbatim>\<open>ZeroDivisionError\<close> when the divisor is zero.\<close>

definition py_div :: "real \<Rightarrow> real \<Rightarrow> error + real" where
  "py_div a b = (if b = 0 then Inl ZeroDivisionError else Inr (a / b))"

text \<open>\<^verbatim>\<open>max(a, b)\<close> of two dictionary values: comparing \<^verbatim>\<open>None\<close> with anything raises
  \<^verbatim>\<open>TypeError\<close>.\<close>

fun py_max2 :: "real option \<Rightarrow> real option \<Rightarrow> error + real" where
  "py_max2 (Some a) (Some b) = Inr (max a b)"
| "py_max2 _ _ = Inl TypeError"

text \<open>\<^verbatim>\<open>int(x)\<close> of a float truncates towards zero.\<close>

definition py_int :: "real \<Rightarrow> int" where
  "py_int r = (if 0 \<le> r then \<lfloor>r\<rfloor> else \<lceil>r\<rceil>)"

subsection \<open>Vectors and the scene object\<close>

text \<open>\<^verbatim>\<open>mathutils.Vector\<close> with three components, and the operations the script uses:
  addition (inside \<^verbatim>\<open>sum\<close>), division by a scalar and unary minus.\<close>

record Vector =
  vx :: real
  vy :: real
  vz :: real

definition vec :: "real \<Rightarrow> real \<Rightarrow> real \<Rightarrow> Vector" where
  "vec a b c = \<lparr>vx = a, vy = b, vz = c\<rparr>"

definition vec_add :: "Vector \<Rightarrow> Vector \<Rightarrow> Vector" where
  "vec_add u v = vec (vx u + vx v) (vy u + vy v) (vz u + vz v)"

definition vec_mul :: "Vector \<Rightarrow> Vector \<Rightarrow> Vector" where
  "vec_mul u v = vec (vx u * vx v) (vy u * vy v) (vz u * vz v)"

definition vec_div :: "Vector \<Rightarrow> real \<Rightarrow> Vector" where
  "vec_div u c = vec (vx u / c) (vy u / c) (vz u / c)"

definition vec_neg :: "Vector \<Rightarrow> Vector" where
  "vec_neg u = vec (- vx u) (- vy u) (- vz u)"

text \<open>\<^verbatim>\<open>sum(vs, start)\<close>: adds the elements to \<^verbatim>\<open>start\<close> from left to right.\<close>

definition vec_sum :: "Vector list \<Rightarrow> Vector \<Rightarrow> Vector" where
  "vec_sum vs start = foldl vec_add start vs"

text \<open>
  Modelled from the spec: the scene-graph collaborator (Blender's \<^verbatim>\<open>bpy\<close>), which is
  not part of the script. Section 6 of the specification names its three operations: the
  query of the world-space bounding-box corners, the application of a scale that is
  committed so that the next query reflects it, and the application of a translation.
  The object is modelled by what the script reads and writes:
  \<^item> \<open>bound_box\<close>: the corners of the mesh's bounding box in the object's own
    coordinates (eight of them in Blender);
  \<^item> \<open>location\<close> and \<open>scale\<close>: the object's transform. Rotation is not modelled (it
    is taken to be the identity), and the object has no parent, so the world matrix maps
    a corner \<open>c\<close> to \<open>location + scale * c\<close> componentwise.
  \<^verbatim>\<open>transform_apply\<close> commits the transform to the mesh data: the corners are replaced
  by their images and the committed part of the transform is reset. Both calls of the
  script commit rotation and scale; they differ in whether the location is committed.
  \<^verbatim>\<open>view_layer.update()\<close> recomputes the world matrix, which the model computes on
  demand, so it has no counterpart here.
\<close>

record Object =
  bound_box :: "Vector list"
  location :: Vector
  scale :: Vector

definition matrix_world :: "Object \<Rightarrow> Vector \<Rightarrow> Vector" where
  "matrix_world obj c = vec_add (location obj) (vec_mul (scale obj) c)"

definition transform_apply :: "bool \<Rightarrow> Object \<Rightarrow> Object" where
  "transform_apply apply_location obj =
     (if apply_location
      then obj\<lparr>bound_box := map (matrix_world obj) (bound_box obj),
               location := vec 0 0 0, scale := vec 1 1 1\<rparr>
      else obj\<lparr>bound_box := map (vec_mul (scale obj)) (bound_box obj),
               scale := vec 1 1 1\<rparr>)"

text \<open>The eight corners of the axis-aligned box between two points, in the order of
  Blender's \<^verbatim>\<open>bound_box\<close>.\<close>

definition box_corners :: "Vector \<Rightarrow> Vector \<Rightarrow> Vector list" where
  "box_corners lo hi =
     [vec (vx lo) (vy lo) (vz lo), vec (vx lo) (vy lo) (vz hi),
      vec (vx lo) (vy hi) (vz hi), vec (vx lo) (vy hi) (vz lo),
      vec (vx hi) (vy lo) (vz lo), vec (vx hi) (vy lo) (vz hi),
      vec (vx hi) (vy hi) (vz hi), vec (vx hi) (vy hi) (vz lo)]"

subsection \<open>\<^verbatim>\<open>get_bounding_box\<close> and \<^verbatim>\<open>center_and_align\<close>\<close>

definition get_bounding_box :: "Object \<Rightarrow> Vector list" where
  "get_bounding_box obj = map (matrix_world obj) (bound_box obj)"

text \<open>Lines 169 to 173: the dictionary \<^verbatim>\<open>model_sizes\<close>, each entry
  \<^verbatim>\<open>max(...) - min(...)\<close> over the corners.\<close>

definition extent :: "(Vector \<Rightarrow> real) \<Rightarrow> Vector list \<Rightarrow> error + real" where
  "extent axis bbox =
     (case py_max (map axis bbox) of Inl e \<Rightarrow> Inl e
      | Inr hi \<Rightarrow> (case py_min (map axis bbox) of Inl e \<Rightarrow> Inl e
          | Inr lo \<Rightarrow> Inr (hi - lo)))"

definition model_sizes_of :: "Vector list \<Rightarrow> error + real dict" where
  "model_sizes_of bbox =
     (case extent vx bbox of Inl e \<Rightarrow> Inl e
      | Inr w \<Rightarrow> (case extent vy bbox of Inl e \<Rightarrow> Inl e
          | Inr d \<Rightarrow> (case extent vz bbox of Inl e \<Rightarrow> Inl e
              | Inr h \<Rightarrow> Inr [(''width'', w), (''depth'', d), (''height'', h)])))"

text \<open>Lines 176 to 178: the loop that rejects a zero size, in the dictionary's order.\<close>

fun check_sizes :: "real dict \<Rightarrow> error + unit" where
  "check_sizes [] = Inr ()"
| "check_sizes ((dm, sz) # rest) =
     (if sz = 0 then Inl (ValueError (''Model '' @ dm @ '' is zero, cannot scale.''))
      else check_sizes rest)"

text \<open>Line 190: the list comprehension of the ratios, over the keys of
  \<^verbatim>\<open>target_dims\<close> whose value is not \<^verbatim>\<open>None\<close>. \<^verbatim>\<open>model_sizes[dim]\<close> raises
  \<^verbatim>\<open>KeyError\<close> for a key that is not an axis.\<close>

fun scales_of :: "real option dict \<Rightarrow> real dict \<Rightarrow> string list \<Rightarrow> error + real list" where
  "scales_of target_dims model_sizes [] = Inr []"
| "scales_of target_dims model_sizes (dm # dms) =
     (case dict_get target_dims dm of Inl e \<Rightarrow> Inl e
      | Inr None \<Rightarrow> scales_of target_dims model_sizes dms
      | Inr (Some t) \<Rightarrow>
          (case dict_get model_sizes dm of Inl e \<Rightarrow> Inl e
           | Inr m \<Rightarrow>
               (case py_div t m of Inl e \<Rightarrow> Inl e
                | Inr r \<Rightarrow>
                    (case scales_of target_dims model_sizes dms of Inl e \<Rightarrow> Inl e
                     | Inr rs \<Rightarrow> Inr (r # rs)))))"

text \<open>Lines 192 and 193: the loop over the three axis names that fills
  \<^verbatim>\<open>final_target_dims\<close>.\<close>

fun resolve_dims ::
  "string list \<Rightarrow> real option dict \<Rightarrow> real dict \<Rightarrow> real \<Rightarrow> error + real option dict" where
  "resolve_dims [] target_dims model_sizes s = Inr []"
| "resolve_dims (dm # dms) target_dims model_sizes s =
     (case dict_get model_sizes dm of Inl e \<Rightarrow> Inl e
      | Inr m \<Rightarrow>
          (case resolve_dims dms target_dims model_sizes s of Inl e \<Rightarrow> Inl e
           | Inr rest \<Rightarrow> Inr ((dm, dict_get_default target_dims dm (Some (m * s))) # rest)))"

text \<open>Lines 181 to 193: the scale solver. It returns \<^verbatim>\<open>final_target_dims\<close> and the
  local variable \<^verbatim>\<open>scale\<close>.\<close>

definition solve_scale ::
  "real dict \<Rightarrow> real option dict option \<Rightarrow> error + (real option dict \<times> real)" where
  "solve_scale model_sizes target_dims_arg =
     (let target_dims = (case target_dims_arg of None \<Rightarrow> [] | Some d \<Rightarrow> d);
          provided_dims = length (filter (\<lambda>(k, v). v \<noteq> None) target_dims)
      in if provided_dims = 0
         then Inr (map (\<lambda>(k, v). (k, Some v)) model_sizes, 1)
         else
           (case scales_of target_dims model_sizes (map fst target_dims) of Inl e \<Rightarrow> Inl e
            | Inr scales \<Rightarrow>
                (case py_min scales of Inl e \<Rightarrow> Inl e
                 | Inr s \<Rightarrow>
                     (case resolve_dims [''width'', ''depth'', ''height'']
                             target_dims model_sizes s of Inl e \<Rightarrow> Inl e
                      | Inr final_target_dims \<Rightarrow> Inr (final_target_dims, s)))))"

text \<open>Lines 163 to 165: rotation and scale are committed, the location is not; then the
  object is moved to the origin.\<close>

definition prepare :: "Object \<Rightarrow> Object" where
  "prepare obj = (transform_apply False obj)\<lparr>location := vec 0 0 0\<rparr>"

text \<open>Lines 196 to 198: the uniform scale is set and committed.\<close>

definition apply_scale :: "real \<Rightarrow> Object \<Rightarrow> Object" where
  "apply_scale s obj = transform_apply True (obj\<lparr>scale := vec s s s\<rparr>)"

text \<open>Lines 199 to 201: the centre of the recomputed bounding box, and the move.\<close>

definition center_of :: "Vector list \<Rightarrow> Vector" where
  "center_of bbox = vec_div (vec_sum bbox (vec 0 0 0)) 8"

definition recenter :: "Object \<Rightarrow> Object" where
  "recenter obj = obj\<lparr>location := vec_neg (center_of (get_bounding_box obj))\<rparr>"

text \<open>The whole function. Besides the pair the Python returns
  (\<^verbatim>\<open>final_target_dims\<close>, \<^verbatim>\<open>scaled_dims\<close>), the result holds the object as the
  function leaves it.\<close>

definition center_and_align ::
  "Object \<Rightarrow> real option dict option \<Rightarrow> error + (real option dict \<times> real dict \<times> Object)" where
  "center_and_align obj target_dims =
     (let obj1 = prepare obj in
      case model_sizes_of (get_bounding_box obj1) of Inl e \<Rightarrow> Inl e
      | Inr model_sizes \<Rightarrow>
          (case check_sizes model_sizes of Inl e \<Rightarrow> Inl e
           | Inr _ \<Rightarrow>
               (case solve_scale model_sizes target_dims of Inl e \<Rightarrow> Inl e
                | Inr (final_target_dims, s) \<Rightarrow>
                    Inr (final_target_dims,
                         map (\<lambda>(key, sz). (key, sz * s)) model_sizes,
                         recenter (apply_scale s obj1)))))"

subsection \<open>The view table, the camera and the resolution\<close>

text \<open>The camera object (\<^verbatim>\<open>cam.location\<close>, \<^verbatim>\<open>cam.rotation_euler\<close>,
  \<^verbatim>\<open>cam.data.ortho_scale\<close>) and the render settings of the scene
  (\<^verbatim>\<open>scene.render\<close>), with the fields the script assigns. An assignment stores the
  value the script computed.\<close>

record Camera =
  cam_location :: Vector
  rotation_euler :: Vector
  ortho_scale :: real

record Render =
  resolution_x :: int
  resolution_y :: int
  resolution_percentage :: int
  file_format :: string
  filepath :: string

text \<open>The entries of \<^verbatim>\<open>CONFIG\<close> that the modelled functions read. The output
  directory is the absolute path of \<^verbatim>\<open>output\<close> under the working directory, so it is a
  parameter.\<close>

record Config =
  views :: "string dict dict"
  dpi :: int
  output_dir :: string
  camera_views :: "(Vector \<times> Vector) dict"

definition radians :: "real \<Rightarrow> real" where
  "radians deg = deg * pi / 180"

definition CONFIG :: "string \<Rightarrow> Config" where
  "CONFIG out =
     \<lparr>views =
        [(''front'', [(''width'', ''width''), (''height'', ''height'')]),
         (''back'', [(''width'', ''width''), (''height'', ''height'')]),
         (''left'', [(''width'', ''depth''), (''height'', ''height'')]),
         (''right'', [(''width'', ''depth''), (''height'', ''height'')]),
         (''top'', [(''width'', ''width''), (''height'', ''depth'')])],
      dpi = 300,
      output_dir = out,
      camera_views =
        [(''front'', (vec 0 200 0, vec (radians 90) 0 (radians 180))),
         (''back'', (vec 0 (- 200) 0, vec (radians 90) 0 0)),
         (''left'', (vec 200 0 0, vec (radians 90) 0 (radians 90))),
         (''right'', (vec (- 200) 0 0, vec (radians 90) 0 (radians (- 90)))),
         (''top'', (vec 0 0 200, vec 0 0 0))]\<rparr>"

text \<open>\<^verbatim>\<open>max(dimensions[a], dimensions[b])\<close>.\<close>

definition dims_max :: "real option dict \<Rightarrow> string \<Rightarrow> string \<Rightarrow> error + real" where
  "dims_max dimensions a b =
     (case dict_get dimensions a of Inl e \<Rightarrow> Inl e
      | Inr x \<Rightarrow> (case dict_get dimensions b of Inl e \<Rightarrow> Inl e
          | Inr y \<Rightarrow> py_max2 x y))"

definition position_camera ::
  "Camera \<Rightarrow> string \<Rightarrow> real option dict \<Rightarrow> (Vector \<times> Vector) dict \<Rightarrow> error + Camera" where
  "position_camera cam view_name dimensions camera_config =
     (case dict_get camera_config view_name of Inl e \<Rightarrow> Inl e
      | Inr (loc, rot) \<Rightarrow>
          (case (if view_name \<in> set [''front'', ''back'']
                 then dims_max dimensions ''width'' ''height''
                 else if view_name \<in> set [''left'', ''right'']
                 then dims_max dimensions ''depth'' ''height''
                 else dims_max dimensions ''width'' ''depth'') of Inl e \<Rightarrow> Inl e
           | Inr m \<Rightarrow> Inr (cam\<lparr>cam_location := loc, rotation_euler := rot, ortho_scale := m\<rparr>)))"

text \<open>\<^verbatim>\<open>int(mm * dpi / 25.4)\<close>: multiplying \<^verbatim>\<open>None\<close> raises \<^verbatim>\<open>TypeError\<close>; the
  divisor is a non-zero literal.\<close>

definition pixels :: "real option \<Rightarrow> int \<Rightarrow> error + int" where
  "pixels mm dpi_v =
     (case mm of None \<Rightarrow> Inl TypeError
      | Some x \<Rightarrow> Inr (py_int (x * real_of_int dpi_v / 25.4)))"

definition set_render_settings ::
  "Render \<Rightarrow> string \<Rightarrow> real option \<Rightarrow> real option \<Rightarrow> int \<Rightarrow> string \<Rightarrow> error + Render" where
  "set_render_settings render view_name width_mm height_mm dpi_v out =
     (case pixels width_mm dpi_v of Inl e \<Rightarrow> Inl e
      | Inr rx \<Rightarrow>
          (case pixels height_mm dpi_v of Inl e \<Rightarrow> Inl e
           | Inr ry \<Rightarrow>
               Inr (render\<lparr>resolution_x := rx, resolution_y := ry,
                           resolution_percentage := 100, file_format := ''PNG'',
                           filepath := out @ ''/'' @ view_name @ ''.png''\<rparr>)))"

text \<open>\<^verbatim>\<open>render_view\<close> up to the call of the renderer, which is outside the script: the
  result is the camera and the render settings that the renderer is started with.\<close>

definition render_view ::
  "string \<Rightarrow> Camera \<Rightarrow> Render \<Rightarrow> real option dict \<Rightarrow> Config \<Rightarrow> error + (Camera \<times> Render)" where
  "render_view view_name cam render dimensions config =
     (case dict_get (views config) view_name of Inl e \<Rightarrow> Inl e
      | Inr axes \<Rightarrow>
     (case dict_get axes ''width'' of Inl e \<Rightarrow> Inl e
      | Inr width_axis \<Rightarrow>
     (case dict_get dimensions width_axis of Inl e \<Rightarrow> Inl e
      | Inr width_mm \<Rightarrow>
     (case dict_get axes ''height'' of Inl e \<Rightarrow> Inl e
      | Inr height_axis \<Rightarrow>
     (case dict_get dimensions height_axis of Inl e \<Rightarrow> Inl e
      | Inr height_mm \<Rightarrow>
     (case position_camera cam view_name dimensions (camera_views config) of Inl e \<Rightarrow> Inl e
      | Inr cam' \<Rightarrow>
     (case set_render_settings render view_name width_mm height_mm (dpi config)
             (output_dir config) of Inl e \<Rightarrow> Inl e
      | Inr render' \<Rightarrow> Inr (cam', render'))))))))"

section \<open>Properties\<close>

subsection \<open>Auxiliary facts about the scale solver\<close>


lemma fold_min_Min: "fold min xs (x::real) = Min (set (x # xs))"
  by (simp only: Min.set_eq_fold)

lemma py_min_Min:
  assumes "xs \<noteq> []"
  shows "py_min xs = Inr (Min (set xs))"
proof (cases xs)
  case Nil
  with assms show ?thesis by simp
next
  case (Cons y ys)
  then show ?thesis by (simp only: py_min.simps fold_min_Min)
qed

lemma scales_of_ok:
  assumes "set ks \<subseteq> dom (map_of T)"
    and "\<And>k t. k \<in> set ks \<Longrightarrow> map_of T k = Some (Some t) \<Longrightarrow> \<exists>m. map_of M k = Some m \<and> m \<noteq> 0"
  shows "scales_of T M ks =
     Inr (map (\<lambda>k. the (the (map_of T k)) / the (map_of M k))
            (filter (\<lambda>k. map_of T k \<noteq> Some None) ks))"
  using assms
proof (induction ks)
  case Nil
  then show ?case by simp
next
  case (Cons k ks)
  then obtain v where v: "map_of T k = Some v" by auto
  have IH: "scales_of T M ks =
     Inr (map (\<lambda>k. the (the (map_of T k)) / the (map_of M k))
            (filter (\<lambda>k. map_of T k \<noteq> Some None) ks))"
    using Cons by simp
  show ?case
  proof (cases v)
    case None
    with v IH show ?thesis by (simp add: dict_get_def)
  next
    case (Some t)
    with v Cons.prems(2)[of k t] obtain m where "map_of M k = Some m" "m \<noteq> 0" by auto
    with v Some IH show ?thesis by (simp add: dict_get_def py_div_def)
  qed
qed

lemma scales_of_no_zero_div:
  assumes "\<And>k m. map_of M k = Some m \<Longrightarrow> m \<noteq> 0"
  shows "scales_of T M ks \<noteq> Inl ZeroDivisionError"
  using assms
  by (induction ks) (auto simp: dict_get_def py_div_def split: option.splits sum.splits)

lemma solve_scale_provided:
  fixes w d h :: real
  defines "E \<equiv> [(''width'', w), (''depth'', d), (''height'', h)]"
  assumes nz: "w \<noteq> 0" "d \<noteq> 0" "h \<noteq> 0"
    and keys: "set (map fst T) \<subseteq> {''width'', ''depth'', ''height''}"
    and prov: "map_of T a = Some (Some t0)"
  shows "\<exists>s. solve_scale E (Some T) =
           Inr ([(''width'', dict_get_default T ''width'' (Some (w * s))),
                 (''depth'', dict_get_default T ''depth'' (Some (d * s))),
                 (''height'', dict_get_default T ''height'' (Some (h * s)))], s)
         \<and> s = Min {t / e |k t e. map_of T k = Some (Some t) \<and> map_of E k = Some e}
         \<and> finite {t / e |k t e. map_of T k = Some (Some t) \<and> map_of E k = Some e}
         \<and> {t / e |k t e. map_of T k = Some (Some t) \<and> map_of E k = Some e} \<noteq> {}"
proof -
  let ?f = "\<lambda>k. the (the (map_of T k)) / the (map_of E k)"
  let ?ks = "filter (\<lambda>k. map_of T k \<noteq> Some None) (map fst T)"
  let ?R = "{t / e |k t e. map_of T k = Some (Some t) \<and> map_of E k = Some e}"
  define scales where "scales = map ?f ?ks"
  have dom: "set (map fst T) \<subseteq> dom (map_of T)"
    by (simp add: dom_map_of_conv_image_fst)
  have Ek: "\<exists>m. map_of E k = Some m \<and> m \<noteq> 0" if "k \<in> set (map fst T)" for k
    using that keys nz by (auto simp: E_def)
  have sc: "scales_of T E (map fst T) = Inr scales"
    unfolding scales_def by (rule scales_of_ok [OF dom]) (use Ek in blast)
  have in_keys: "k \<in> set (map fst T)" if "map_of T k = Some v" for k v
    using map_of_SomeD [OF that] by force
  have "(a, Some t0) \<in> set T"
    using prov by (rule map_of_SomeD)
  then have "(a, Some t0) \<in> set (filter (\<lambda>(k, v). v \<noteq> None) T)"
    by simp
  then have cnt: "length (filter (\<lambda>(k, v). v \<noteq> None) T) \<noteq> 0"
    by (metis length_0_conv empty_iff empty_set)
  have "a \<in> set ?ks"
    using in_keys [OF prov] prov by simp
  then have "?f a \<in> set scales"
    unfolding scales_def by (simp only: set_map) (rule imageI)
  then have ne: "scales \<noteq> []"
    by (metis empty_iff empty_set)
  have set_eq: "set scales = ?R"
  proof (intro set_eqI iffI)
    fix r assume "r \<in> set scales"
    then obtain k where k: "k \<in> set (map fst T)" "map_of T k \<noteq> Some None" "r = ?f k"
      unfolding scales_def by auto
    from k(1) dom obtain v where "map_of T k = Some v" by auto
    with k(2) obtain t where t: "map_of T k = Some (Some t)" by (cases v) auto
    from Ek [OF k(1)] obtain m where m: "map_of E k = Some m" by blast
    from t m k(3) show "r \<in> ?R" by auto
  next
    fix r assume "r \<in> ?R"
    then obtain k t e where k: "map_of T k = Some (Some t)" "map_of E k = Some e" "r = t / e"
      by blast
    from k(1) have "k \<in> set ?ks"
      using in_keys [OF k(1)] by simp
    then have "?f k \<in> set scales"
      unfolding scales_def by (simp only: set_map) (rule imageI)
    with k show "r \<in> set scales" by simp
  qed
  have mn: "py_min scales = Inr (Min ?R)"
    using py_min_Min [OF ne] by (simp only: set_eq)
  have rs: "resolve_dims [''width'', ''depth'', ''height''] T E s =
              Inr [(''width'', dict_get_default T ''width'' (Some (w * s))),
                   (''depth'', dict_get_default T ''depth'' (Some (d * s))),
                   (''height'', dict_get_default T ''height'' (Some (h * s)))]" for s
    by (simp add: E_def dict_get_def)
  have "solve_scale E (Some T) =
           Inr ([(''width'', dict_get_default T ''width'' (Some (w * Min ?R))),
                 (''depth'', dict_get_default T ''depth'' (Some (d * Min ?R))),
                 (''height'', dict_get_default T ''height'' (Some (h * Min ?R)))], Min ?R)"
    unfolding solve_scale_def Let_def using cnt
    by (simp only: option.case if_False sc sum.case mn rs prod.case)
  moreover have "finite ?R"
    using set_eq by (metis List.finite_set)
  moreover have "?R \<noteq> {}"
    using set_eq ne by (metis set_empty)
  ultimately show ?thesis by blast
qed

lemma solve_scale_none_provided:
  assumes "\<forall>(k, v) \<in> set T. v = None"
  shows "solve_scale E (Some T) = Inr (map (\<lambda>(k, v). (k, Some v)) E, 1)"
proof -
  have "filter (\<lambda>(k, v). v \<noteq> None) T = []"
    using assms by (auto simp: filter_empty_conv)
  then show ?thesis
    by (simp add: solve_scale_def)
qed

lemma solve_scale_no_dict: "solve_scale E None = Inr (map (\<lambda>(k, v). (k, Some v)) E, 1)"
  by (simp add: solve_scale_def)

lemma center_and_align_unfold:
  assumes "model_sizes_of (get_bounding_box (prepare obj)) =
             Inr [(''width'', w), (''depth'', d), (''height'', h)]"
    and "w \<noteq> 0" "d \<noteq> 0" "h \<noteq> 0"
  shows "center_and_align obj T =
           (case solve_scale [(''width'', w), (''depth'', d), (''height'', h)] T of
              Inl e \<Rightarrow> Inl e
            | Inr (final_target_dims, s) \<Rightarrow>
                Inr (final_target_dims,
                     [(''width'', w * s), (''depth'', d * s), (''height'', h * s)],
                     recenter (apply_scale s (prepare obj))))"
  using assms by (simp add: center_and_align_def split: sum.splits)

lemma key_of_entry:
  assumes "map_of T a = Some v"
  shows "a \<in> set (map fst T)"
  using map_of_SomeD [OF assms] by force

text \<open>
  Claim C1. Let the extents of the bounding box be strictly positive and let the target
  envelope name only axes, each with a strictly positive value. If the envelope is not
  empty, \<^verbatim>\<open>center_and_align\<close> uses as scale the least ratio \<open>T[a] / E[a]\<close> over the
  axes that are set; the final dimensions are \<open>T[a]\<close> on every axis that is set and
  \<open>E[a] * scale\<close> on every axis that is not. With no axis set (an empty dictionary or
  \<^verbatim>\<open>None\<close>) the scale is 1 and the final dimensions are the extents. The scale shows
  in the returned scaled sizes and in the scale applied to the object.
\<close>

theorem center_and_align_scale_and_dims:
  fixes w d h :: real
  assumes ext: "model_sizes_of (get_bounding_box (prepare obj)) =
                  Inr [(''width'', w), (''depth'', d), (''height'', h)]"
    and pos: "0 < w" "0 < d" "0 < h"
    and keys: "set (map fst T) \<subseteq> {''width'', ''depth'', ''height''}"
    and vals: "\<forall>(k, v) \<in> set T. \<exists>t. v = Some t \<and> 0 < t"
  shows "(T \<noteq> [] \<longrightarrow>
          (\<exists>final s.
             center_and_align obj (Some T) =
               Inr (final, [(''width'', w * s), (''depth'', d * s), (''height'', h * s)],
                    recenter (apply_scale s (prepare obj)))
           \<and> s = Min {t / e |a t e. map_of T a = Some (Some t)
                        \<and> map_of [(''width'', w), (''depth'', d), (''height'', h)] a = Some e}
           \<and> map fst final = [''width'', ''depth'', ''height'']
           \<and> (\<forall>a t. map_of T a = Some (Some t) \<longrightarrow> map_of final a = Some (Some t))
           \<and> (\<forall>a e. map_of T a = None
                    \<and> map_of [(''width'', w), (''depth'', d), (''height'', h)] a = Some e
                  \<longrightarrow> map_of final a = Some (Some (e * s)))))
       \<and> center_and_align obj (Some []) =
            Inr ([(''width'', Some w), (''depth'', Some d), (''height'', Some h)],
                 [(''width'', w), (''depth'', d), (''height'', h)],
                 recenter (apply_scale 1 (prepare obj)))
       \<and> center_and_align obj None =
            Inr ([(''width'', Some w), (''depth'', Some d), (''height'', Some h)],
                 [(''width'', w), (''depth'', d), (''height'', h)],
                 recenter (apply_scale 1 (prepare obj)))"
proof (intro conjI impI)
  let ?E = "[(''width'', w), (''depth'', d), (''height'', h)]"
  have nz: "w \<noteq> 0" "d \<noteq> 0" "h \<noteq> 0" using pos by simp_all
  note unf = center_and_align_unfold [OF ext nz]
  show "center_and_align obj (Some []) =
            Inr ([(''width'', Some w), (''depth'', Some d), (''height'', Some h)], ?E,
                 recenter (apply_scale 1 (prepare obj)))"
    by (simp add: unf solve_scale_none_provided)
  show "center_and_align obj None =
            Inr ([(''width'', Some w), (''depth'', Some d), (''height'', Some h)], ?E,
                 recenter (apply_scale 1 (prepare obj)))"
    by (simp add: unf solve_scale_no_dict)
  assume "T \<noteq> []"
  then obtain a0 v0 where "(a0, v0) \<in> set T"
    by (cases T) auto
  moreover from this vals obtain t0 where "v0 = Some t0" by auto
  ultimately have in_T: "(a0, Some t0) \<in> set T" by simp
  have all_some: "\<exists>t. v = Some t" if "map_of T a = Some v" for a v
    using map_of_SomeD [OF that] vals by auto
  have "a0 \<in> fst ` set T"
    using in_T by (rule image_eqI [rotated]) simp
  then have "a0 \<in> dom (map_of T)"
    by (simp only: dom_map_of_conv_image_fst)
  then obtain v1 where "map_of T a0 = Some v1" by auto
  with all_some obtain t1 where prov: "map_of T a0 = Some (Some t1)" by blast
  let ?final = "\<lambda>s. [(''width'', dict_get_default T ''width'' (Some (w * s))),
                 (''depth'', dict_get_default T ''depth'' (Some (d * s))),
                 (''height'', dict_get_default T ''height'' (Some (h * s)))]"
  from solve_scale_provided [OF nz keys prov]
  obtain s where sol: "solve_scale ?E (Some T) = Inr (?final s, s)"
    and s: "s = Min {t / e |k t e. map_of T k = Some (Some t) \<and> map_of ?E k = Some e}"
    by blast
  have run: "center_and_align obj (Some T) =
               Inr (?final s, [(''width'', w * s), (''depth'', d * s), (''height'', h * s)],
                    recenter (apply_scale s (prepare obj)))"
    by (simp add: unf sol)
  have set_ax: "map_of (?final s) a = Some (Some t)" if "map_of T a = Some (Some t)" for a t
  proof -
    have "a \<in> {''width'', ''depth'', ''height''}"
      using key_of_entry [OF that] keys by blast
    with that show ?thesis by (auto simp: dict_get_default_def)
  qed
  have unset_ax: "map_of (?final s) a = Some (Some (e * s))"
    if "map_of T a = None \<and> map_of ?E a = Some e" for a e
    using that by (auto simp: dict_get_default_def split: if_splits)
  show "\<exists>final s.
             center_and_align obj (Some T) =
               Inr (final, [(''width'', w * s), (''depth'', d * s), (''height'', h * s)],
                    recenter (apply_scale s (prepare obj)))
           \<and> s = Min {t / e |a t e. map_of T a = Some (Some t) \<and> map_of ?E a = Some e}
           \<and> map fst final = [''width'', ''depth'', ''height'']
           \<and> (\<forall>a t. map_of T a = Some (Some t) \<longrightarrow> map_of final a = Some (Some t))
           \<and> (\<forall>a e. map_of T a = None \<and> map_of ?E a = Some e
                  \<longrightarrow> map_of final a = Some (Some (e * s)))"
  proof (intro exI conjI allI impI)
    show "center_and_align obj (Some T) =
               Inr (?final s, [(''width'', w * s), (''depth'', d * s), (''height'', h * s)],
                    recenter (apply_scale s (prepare obj)))"
      by (rule run)
    show "s = Min {t / e |a t e. map_of T a = Some (Some t) \<and> map_of ?E a = Some e}"
      by (rule s)
    show "map fst (?final s) = [''width'', ''depth'', ''height'']" by simp
    show "map_of (?final s) a = Some (Some t)" if "map_of T a = Some (Some t)" for a t
      using that by (rule set_ax)
    show "map_of (?final s) a = Some (Some (e * s))"
      if "map_of T a = None \<and> map_of ?E a = Some e" for a e
      using that by (rule unset_ax)
  qed
qed

lemma center_and_align_provided:
  fixes w d h :: real
  assumes ext: "model_sizes_of (get_bounding_box (prepare obj)) =
                  Inr [(''width'', w), (''depth'', d), (''height'', h)]"
    and nz: "w \<noteq> 0" "d \<noteq> 0" "h \<noteq> 0"
    and keys: "set (map fst T) \<subseteq> {''width'', ''depth'', ''height''}"
    and prov: "map_of T a0 = Some (Some t0)"
  shows "\<exists>s. center_and_align obj (Some T) =
           Inr ([(''width'', dict_get_default T ''width'' (Some (w * s))),
                 (''depth'', dict_get_default T ''depth'' (Some (d * s))),
                 (''height'', dict_get_default T ''height'' (Some (h * s)))],
                [(''width'', w * s), (''depth'', d * s), (''height'', h * s)],
                recenter (apply_scale s (prepare obj)))
         \<and> s = Min {t / e |k t e. map_of T k = Some (Some t)
                      \<and> map_of [(''width'', w), (''depth'', d), (''height'', h)] k = Some e}
         \<and> finite {t / e |k t e. map_of T k = Some (Some t)
                      \<and> map_of [(''width'', w), (''depth'', d), (''height'', h)] k = Some e}
         \<and> {t / e |k t e. map_of T k = Some (Some t)
                      \<and> map_of [(''width'', w), (''depth'', d), (''height'', h)] k = Some e} \<noteq> {}"
proof -
  from solve_scale_provided [OF nz keys prov]
  obtain s where sol: "solve_scale [(''width'', w), (''depth'', d), (''height'', h)] (Some T) =
           Inr ([(''width'', dict_get_default T ''width'' (Some (w * s))),
                 (''depth'', dict_get_default T ''depth'' (Some (d * s))),
                 (''height'', dict_get_default T ''height'' (Some (h * s)))], s)"
    and rest: "s = Min {t / e |k t e. map_of T k = Some (Some t)
                      \<and> map_of [(''width'', w), (''depth'', d), (''height'', h)] k = Some e}"
      "finite {t / e |k t e. map_of T k = Some (Some t)
                      \<and> map_of [(''width'', w), (''depth'', d), (''height'', h)] k = Some e}"
      "{t / e |k t e. map_of T k = Some (Some t)
                      \<and> map_of [(''width'', w), (''depth'', d), (''height'', h)] k = Some e} \<noteq> {}"
    by blast
  have "center_and_align obj (Some T) =
           Inr ([(''width'', dict_get_default T ''width'' (Some (w * s))),
                 (''depth'', dict_get_default T ''depth'' (Some (d * s))),
                 (''height'', dict_get_default T ''height'' (Some (h * s)))],
                [(''width'', w * s), (''depth'', d * s), (''height'', h * s)],
                recenter (apply_scale s (prepare obj)))"
    by (simp add: center_and_align_unfold [OF ext nz] sol)
  with rest show ?thesis by blast
qed

lemma nonempty_provided:
  assumes "T \<noteq> []" and "\<forall>(k, v) \<in> set T. \<exists>t. v = Some t \<and> P t"
  shows "\<exists>a t. map_of T a = Some (Some t)"
proof -
  from assms(1) obtain a v where in_T: "(a, v) \<in> set T"
    by (cases T) auto
  then have "a \<in> fst ` set T"
    by (rule image_eqI [rotated]) simp
  then have "a \<in> dom (map_of T)"
    by (simp only: dom_map_of_conv_image_fst)
  then obtain v1 where v1: "map_of T a = Some v1" by auto
  from map_of_SomeD [OF v1] assms(2) obtain t where "v1 = Some t" by auto
  with v1 show ?thesis by blast
qed

text \<open>A resolved entry is never below the scaled size, whatever the axis.\<close>

lemma resolved_entry_bound:
  fixes e s :: real
  assumes e: "0 < e"
    and fin: "finite R" and s: "s = Min R"
    and inR: "\<And>t. map_of T a = Some (Some t) \<Longrightarrow> t / e \<in> R"
    and some: "\<And>v. map_of T a = Some v \<Longrightarrow> v \<noteq> None"
  shows "\<exists>f. dict_get_default T a (Some (e * s)) = Some f \<and> e * s \<le> f"
proof (cases "map_of T a")
  case None
  then show ?thesis by (simp add: dict_get_default_def)
next
  case (Some v)
  with some obtain t where t: "map_of T a = Some (Some t)" by (cases v) auto
  have "s \<le> t / e"
    unfolding s using fin inR [OF t] by (rule Min_le)
  then have "e * s \<le> t"
    using e by (simp add: pos_le_divide_eq mult.commute)
  with t show ?thesis by (simp add: dict_get_default_def)
qed

lemmas eval_defs = model_sizes_of_def extent_def get_bounding_box_def prepare_def
  transform_apply_def matrix_world_def vec_add_def vec_mul_def vec_def box_corners_def

text \<open>The scenario of the specification: extents 50, 30, 80 (width, depth, height) and
  a target width of 100 give the scale 2 and the final dimensions 100, 60, 160.\<close>

theorem center_and_align_scale_and_dims_witness:
  "model_sizes_of (get_bounding_box (prepare
       \<lparr>bound_box = box_corners (vec 0 0 0) (vec 50 30 80), location = vec 7 8 9,
        scale = vec 1 1 1\<rparr>)) =
     Inr [(''width'', 50), (''depth'', 30), (''height'', 80)]
   \<and> (0::real) < 50 \<and> (0::real) < 30 \<and> (0::real) < 80
   \<and> set (map fst [(''width'', Some (100::real))]) \<subseteq> {''width'', ''depth'', ''height''}
   \<and> center_and_align
         \<lparr>bound_box = box_corners (vec 0 0 0) (vec 50 30 80), location = vec 7 8 9,
          scale = vec 1 1 1\<rparr> (Some [(''width'', Some 100)]) =
       Inr ([(''width'', Some 100), (''depth'', Some 60), (''height'', Some 160)],
            [(''width'', 100), (''depth'', 60), (''height'', 160)],
            recenter (apply_scale 2 (prepare
              \<lparr>bound_box = box_corners (vec 0 0 0) (vec 50 30 80), location = vec 7 8 9,
               scale = vec 1 1 1\<rparr>)))"
proof -
  let ?obj = "\<lparr>bound_box = box_corners (vec 0 0 0) (vec 50 30 80), location = vec 7 8 9,
                scale = vec 1 1 1\<rparr>"
  let ?T = "[(''width'', Some (100::real))]"
  have h1: "model_sizes_of (get_bounding_box (prepare ?obj)) =
              Inr [(''width'', 50), (''depth'', 30), (''height'', 80)]"
    by (simp add: eval_defs)
  have h2: "(0::real) < 50" "(0::real) < 30" "(0::real) < 80" by simp_all
  have h3: "set (map fst ?T) \<subseteq> {''width'', ''depth'', ''height''}" by simp
  have h4: "\<forall>(k, v) \<in> set ?T. \<exists>t. v = Some t \<and> 0 < t" by simp
  have ne: "?T \<noteq> []" by simp
  from mp [OF conjunct1 [OF center_and_align_scale_and_dims [OF h1 h2 h3 h4]] ne]
  obtain final s where run: "center_and_align ?obj (Some ?T) =
        Inr (final, [(''width'', 50 * s), (''depth'', 30 * s), (''height'', 80 * s)],
             recenter (apply_scale s (prepare ?obj)))"
    and s: "s = Min {t / e |a t e. map_of ?T a = Some (Some t)
                 \<and> map_of [(''width'', 50), (''depth'', 30), (''height'', 80)] a = Some e}"
    and ks: "map fst final = [''width'', ''depth'', ''height'']"
    and set_ax: "\<forall>a t. map_of ?T a = Some (Some t) \<longrightarrow> map_of final a = Some (Some t)"
    and unset_ax: "\<forall>a e. map_of ?T a = None
                   \<and> map_of [(''width'', 50), (''depth'', 30), (''height'', 80)] a = Some e
                  \<longrightarrow> map_of final a = Some (Some (e * s))"
    by (elim exE conjE) (rule that)
  have "{t / e |a t e. map_of ?T a = Some (Some t)
           \<and> map_of [(''width'', 50::real), (''depth'', 30), (''height'', 80)] a = Some e} = {2}"
    by (auto split: if_splits)
  with s have s2: "s = 2" by simp
  from ks obtain fw fd fh where final: "final = [(''width'', fw), (''depth'', fd), (''height'', fh)]"
    by (auto simp: map_eq_Cons_conv)
  from set_ax [rule_format, of "''width''" 100] have "fw = Some 100" by (simp add: final)
  moreover from unset_ax [rule_format, of "''depth''" 30] have "fd = Some 60" by (simp add: final s2)
  moreover from unset_ax [rule_format, of "''height''" 80] have "fh = Some 160" by (simp add: final s2)
  ultimately have "final = [(''width'', Some 100), (''depth'', Some 60), (''height'', Some 160)]"
    by (simp add: final)
  with run s2 have "center_and_align ?obj (Some ?T) =
       Inr ([(''width'', Some 100), (''depth'', Some 60), (''height'', Some 160)],
            [(''width'', 100), (''depth'', 60), (''height'', 160)],
            recenter (apply_scale 2 (prepare ?obj)))"
    by simp
  with h1 h2 h3 show ?thesis by blast
qed

subsection \<open>The scaled mesh fits the final dimensions\<close>

text \<open>
  Claim C2. With strictly positive extents and a non-empty target envelope of strictly
  positive values, the scaled size \<open>E[a] * scale\<close> is at most the final dimension on
  each of the three axes. It is equal to it on some axis that is set and attains the least
  ratio, on every such axis, and on every axis that is not set.
\<close>

theorem center_and_align_fits_envelope:
  fixes w d h :: real
  assumes ext: "model_sizes_of (get_bounding_box (prepare obj)) =
                  Inr [(''width'', w), (''depth'', d), (''height'', h)]"
    and pos: "0 < w" "0 < d" "0 < h"
    and keys: "set (map fst T) \<subseteq> {''width'', ''depth'', ''height''}"
    and vals: "\<forall>(k, v) \<in> set T. \<exists>t. v = Some t \<and> 0 < t"
    and ne: "T \<noteq> []"
  shows "\<exists>final s.
           center_and_align obj (Some T) =
             Inr (final, [(''width'', w * s), (''depth'', d * s), (''height'', h * s)],
                  recenter (apply_scale s (prepare obj)))
         \<and> s = Min {t / e |a t e. map_of T a = Some (Some t)
                      \<and> map_of [(''width'', w), (''depth'', d), (''height'', h)] a = Some e}
         \<and> (\<forall>a e. map_of [(''width'', w), (''depth'', d), (''height'', h)] a = Some e
                \<longrightarrow> (\<exists>f. map_of final a = Some (Some f) \<and> e * s \<le> f))
         \<and> (\<exists>a t e. map_of T a = Some (Some t)
                \<and> map_of [(''width'', w), (''depth'', d), (''height'', h)] a = Some e
                \<and> t / e = s \<and> map_of final a = Some (Some (e * s)))
         \<and> (\<forall>a t e. map_of T a = Some (Some t)
                  \<and> map_of [(''width'', w), (''depth'', d), (''height'', h)] a = Some e
                  \<and> t / e = s
                \<longrightarrow> map_of final a = Some (Some (e * s)))
         \<and> (\<forall>a e. map_of T a = None
                  \<and> map_of [(''width'', w), (''depth'', d), (''height'', h)] a = Some e
                \<longrightarrow> map_of final a = Some (Some (e * s)))"
proof -
  let ?E = "[(''width'', w), (''depth'', d), (''height'', h)]"
  let ?R = "{t / e |a t e. map_of T a = Some (Some t) \<and> map_of ?E a = Some e}"
  let ?final = "\<lambda>s. [(''width'', dict_get_default T ''width'' (Some (w * s))),
                 (''depth'', dict_get_default T ''depth'' (Some (d * s))),
                 (''height'', dict_get_default T ''height'' (Some (h * s)))]"
  have nz: "w \<noteq> 0" "d \<noteq> 0" "h \<noteq> 0" using pos by simp_all
  from nonempty_provided [OF ne vals] obtain a0 t0 where prov: "map_of T a0 = Some (Some t0)"
    by blast
  from center_and_align_provided [OF ext nz keys prov]
  obtain s where run: "center_and_align obj (Some T) =
        Inr (?final s, [(''width'', w * s), (''depth'', d * s), (''height'', h * s)],
             recenter (apply_scale s (prepare obj)))"
    and s: "s = Min ?R" and fin: "finite ?R" and nonempty: "?R \<noteq> {}"
    by (elim exE conjE) (rule that)
  have E_pos: "0 < e" if "map_of ?E a = Some e" for a e
    using that pos by (auto split: if_splits)
  have some: "v \<noteq> None" if "map_of T a = Some v" for a v
    using map_of_SomeD [OF that] vals by auto
  have final_at: "map_of (?final s) a = Some (dict_get_default T a (Some (e * s)))"
    if "map_of ?E a = Some e" for a e
    using that by (auto split: if_splits)
  have bound: "\<exists>f. map_of (?final s) a = Some (Some f) \<and> e * s \<le> f"
    if E: "map_of ?E a = Some e" for a e
  proof -
    have "\<exists>f. dict_get_default T a (Some (e * s)) = Some f \<and> e * s \<le> f"
    proof (rule resolved_entry_bound [OF E_pos [OF E] fin s])
      show "t / e \<in> ?R" if "map_of T a = Some (Some t)" for t
        using that E by blast
      show "v \<noteq> None" if "map_of T a = Some v" for v
        using that by (rule some)
    qed
    then show ?thesis by (simp add: final_at [OF E] del: map_of.simps)
  qed
  have tight: "map_of (?final s) a = Some (Some (e * s))"
    if "map_of T a = Some (Some t) \<and> map_of ?E a = Some e \<and> t / e = s" for a t e
  proof -
    from that have T: "map_of T a = Some (Some t)" and E: "map_of ?E a = Some e"
      and r: "t / e = s" by simp_all
    have "e * s = t"
      using E_pos [OF E] r by auto
    with T show ?thesis
      by (simp only: final_at [OF E]) (simp add: dict_get_default_def)
  qed
  have unset_ax: "map_of (?final s) a = Some (Some (e * s))"
    if "map_of T a = None \<and> map_of ?E a = Some e" for a e
  proof -
    from that have T: "map_of T a = None" and E: "map_of ?E a = Some e" by simp_all
    from T show ?thesis
      by (simp only: final_at [OF E]) (simp add: dict_get_default_def)
  qed
  have "s \<in> ?R"
    unfolding s using fin nonempty by (rule Min_in)
  then obtain a1 t1 e1 where binding: "map_of T a1 = Some (Some t1)"
    "map_of ?E a1 = Some e1" "t1 / e1 = s"
    by blast
  have ex_tight: "\<exists>a t e. map_of T a = Some (Some t) \<and> map_of ?E a = Some e
                \<and> t / e = s \<and> map_of (?final s) a = Some (Some (e * s))"
    using binding tight [of a1 t1 e1] by blast
  have body: "center_and_align obj (Some T) =
             Inr (?final s, [(''width'', w * s), (''depth'', d * s), (''height'', h * s)],
                  recenter (apply_scale s (prepare obj)))
         \<and> s = Min ?R
         \<and> (\<forall>a e. map_of ?E a = Some e
                \<longrightarrow> (\<exists>f. map_of (?final s) a = Some (Some f) \<and> e * s \<le> f))
         \<and> (\<exists>a t e. map_of T a = Some (Some t) \<and> map_of ?E a = Some e
                \<and> t / e = s \<and> map_of (?final s) a = Some (Some (e * s)))
         \<and> (\<forall>a t e. map_of T a = Some (Some t) \<and> map_of ?E a = Some e \<and> t / e = s
                \<longrightarrow> map_of (?final s) a = Some (Some (e * s)))
         \<and> (\<forall>a e. map_of T a = None \<and> map_of ?E a = Some e
                \<longrightarrow> map_of (?final s) a = Some (Some (e * s)))"
  proof (intro conjI)
    show "center_and_align obj (Some T) =
        Inr (?final s, [(''width'', w * s), (''depth'', d * s), (''height'', h * s)],
             recenter (apply_scale s (prepare obj)))"
      by (rule run)
    show "s = Min ?R" by (rule s)
    show "\<forall>a e. map_of ?E a = Some e
                \<longrightarrow> (\<exists>f. map_of (?final s) a = Some (Some f) \<and> e * s \<le> f)"
      using bound by blast
    show "\<exists>a t e. map_of T a = Some (Some t) \<and> map_of ?E a = Some e
                \<and> t / e = s \<and> map_of (?final s) a = Some (Some (e * s))"
      by (rule ex_tight)
    show "\<forall>a t e. map_of T a = Some (Some t) \<and> map_of ?E a = Some e \<and> t / e = s
                \<longrightarrow> map_of (?final s) a = Some (Some (e * s))"
      using tight by blast
    show "\<forall>a e. map_of T a = None \<and> map_of ?E a = Some e
                \<longrightarrow> map_of (?final s) a = Some (Some (e * s))"
      using unset_ax by blast
  qed
  show ?thesis
    by (rule exI [where x = "?final s"], rule exI [where x = s]) (fact body)
qed


text \<open>Extents 50, 30, 80 with a target width of 100 and a target height of 200: the width
  binds (scale 2), the height keeps a clearance of 40, the depth is left at its scaled
  size.\<close>

theorem center_and_align_fits_envelope_witness:
  "model_sizes_of (get_bounding_box (prepare
       \<lparr>bound_box = box_corners (vec 0 0 0) (vec 50 30 80), location = vec 7 8 9,
        scale = vec 1 1 1\<rparr>)) =
     Inr [(''width'', 50), (''depth'', 30), (''height'', 80)]
   \<and> set (map fst [(''width'', Some (100::real)), (''height'', Some 200)])
         \<subseteq> {''width'', ''depth'', ''height''}
   \<and> (\<exists>final.
         center_and_align
           \<lparr>bound_box = box_corners (vec 0 0 0) (vec 50 30 80), location = vec 7 8 9,
            scale = vec 1 1 1\<rparr> (Some [(''width'', Some 100), (''height'', Some 200)]) =
         Inr (final, [(''width'', 100), (''depth'', 60), (''height'', 160)],
              recenter (apply_scale 2 (prepare
                \<lparr>bound_box = box_corners (vec 0 0 0) (vec 50 30 80), location = vec 7 8 9,
                 scale = vec 1 1 1\<rparr>)))
       \<and> map_of final ''width'' = Some (Some 100)
       \<and> map_of final ''depth'' = Some (Some 60)
       \<and> (\<exists>f. map_of final ''height'' = Some (Some f) \<and> 160 \<le> f))"
proof -
  let ?obj = "\<lparr>bound_box = box_corners (vec 0 0 0) (vec 50 30 80), location = vec 7 8 9,
                scale = vec 1 1 1\<rparr>"
  let ?T = "[(''width'', Some (100::real)), (''height'', Some 200)]"
  let ?E = "[(''width'', 50::real), (''depth'', 30), (''height'', 80)]"
  have h1: "model_sizes_of (get_bounding_box (prepare ?obj)) = Inr ?E"
    by (simp add: eval_defs)
  have h2: "(0::real) < 50" "(0::real) < 30" "(0::real) < 80" by simp_all
  have h3: "set (map fst ?T) \<subseteq> {''width'', ''depth'', ''height''}" by simp
  have h4: "\<forall>(k, v) \<in> set ?T. \<exists>t. v = Some t \<and> 0 < t" by simp
  have h5: "?T \<noteq> []" by simp
  from center_and_align_fits_envelope [OF h1 h2 h3 h4 h5]
  obtain final s where run: "center_and_align ?obj (Some ?T) =
        Inr (final, [(''width'', 50 * s), (''depth'', 30 * s), (''height'', 80 * s)],
             recenter (apply_scale s (prepare ?obj)))"
    and s: "s = Min {t / e |a t e. map_of ?T a = Some (Some t) \<and> map_of ?E a = Some e}"
    and bound: "\<forall>a e. map_of ?E a = Some e
                \<longrightarrow> (\<exists>f. map_of final a = Some (Some f) \<and> e * s \<le> f)"
    and tight: "\<forall>a t e. map_of ?T a = Some (Some t) \<and> map_of ?E a = Some e \<and> t / e = s
                \<longrightarrow> map_of final a = Some (Some (e * s))"
    and unset_ax: "\<forall>a e. map_of ?T a = None \<and> map_of ?E a = Some e
                \<longrightarrow> map_of final a = Some (Some (e * s))"
    by (elim exE conjE) (rule that)
  have "{t / e |a t e. map_of ?T a = Some (Some t) \<and> map_of ?E a = Some e} = {2, 5 / 2}"
    (is "?R = _")
  proof (intro set_eqI iffI)
    fix r :: real
    assume "r \<in> ?R"
    then obtain a t e where "map_of ?T a = Some (Some t)" "map_of ?E a = Some e" "r = t / e"
      by blast
    then show "r \<in> {2, 5 / 2}"
      by (simp split: if_splits)
  next
    fix r :: real
    assume "r \<in> {2, 5 / 2}"
    then consider "r = 2" | "r = 5 / 2" by blast
    then show "r \<in> ?R"
    proof cases
      case 1
      then have "map_of ?T ''width'' = Some (Some 100) \<and> map_of ?E ''width'' = Some 50
          \<and> r = 100 / 50"
        by simp
      then show ?thesis by blast
    next
      case 2
      then have "map_of ?T ''height'' = Some (Some 200) \<and> map_of ?E ''height'' = Some 80
          \<and> r = 200 / 80"
        by simp
      then show ?thesis by blast
    qed
  qed
  with s have s2: "s = 2" by simp
  from tight [rule_format, of "''width''" 100 50]
  have fw: "map_of final ''width'' = Some (Some 100)" by (simp add: s2)
  from unset_ax [rule_format, of "''depth''" 30]
  have fd: "map_of final ''depth'' = Some (Some 60)" by (simp add: s2)
  from bound [rule_format, of "''height''" 80]
  have fh: "\<exists>f. map_of final ''height'' = Some (Some f) \<and> 160 \<le> f" by (simp add: s2)
  from run have "center_and_align ?obj (Some ?T) =
        Inr (final, [(''width'', 100), (''depth'', 60), (''height'', 160)],
             recenter (apply_scale 2 (prepare ?obj)))"
    by (simp add: s2)
  with h1 h3 fw fd fh show ?thesis by blast
qed

subsection \<open>Normalising a second time\<close>

text \<open>The first run in the form the second run needs: every final dimension is a number
  that is at least the scaled size, one of them is equal to it, and the scale is
  positive.\<close>

lemma first_run_facts:
  fixes w d h :: real
  assumes ext: "model_sizes_of (get_bounding_box (prepare obj)) =
                  Inr [(''width'', w), (''depth'', d), (''height'', h)]"
    and pos: "0 < w" "0 < d" "0 < h"
    and keys: "set (map fst T) \<subseteq> {''width'', ''depth'', ''height''}"
    and vals: "\<forall>(k, v) \<in> set T. \<exists>t. v = Some t \<and> 0 < t"
    and ne: "T \<noteq> []"
  shows "\<exists>s fw fd fh.
           center_and_align obj (Some T) =
             Inr ([(''width'', Some fw), (''depth'', Some fd), (''height'', Some fh)],
                  [(''width'', w * s), (''depth'', d * s), (''height'', h * s)],
                  recenter (apply_scale s (prepare obj)))
         \<and> 0 < s \<and> w * s \<le> fw \<and> d * s \<le> fd \<and> h * s \<le> fh
         \<and> (w * s = fw \<or> d * s = fd \<or> h * s = fh)"
proof -
  let ?E = "[(''width'', w), (''depth'', d), (''height'', h)]"
  let ?R = "{t / e |k t e. map_of T k = Some (Some t) \<and> map_of ?E k = Some e}"
  have nz: "w \<noteq> 0" "d \<noteq> 0" "h \<noteq> 0" using pos by simp_all
  from nonempty_provided [OF ne vals] obtain a0 t0 where prov: "map_of T a0 = Some (Some t0)"
    by blast
  from center_and_align_provided [OF ext nz keys prov]
  obtain s where run: "center_and_align obj (Some T) =
        Inr ([(''width'', dict_get_default T ''width'' (Some (w * s))),
              (''depth'', dict_get_default T ''depth'' (Some (d * s))),
              (''height'', dict_get_default T ''height'' (Some (h * s)))],
             [(''width'', w * s), (''depth'', d * s), (''height'', h * s)],
             recenter (apply_scale s (prepare obj)))"
    and s: "s = Min ?R" and fin: "finite ?R" and nonempty: "?R \<noteq> {}"
    by (elim exE conjE) (rule that)
  have some: "v \<noteq> None" if "map_of T a = Some v" for a v
    using map_of_SomeD [OF that] vals by auto
  have val_pos: "0 < t" if "map_of T a = Some (Some t)" for a t
    using map_of_SomeD [OF that] vals by auto
  have E_pos: "0 < e" if "map_of ?E a = Some e" for a e
    using that pos by (auto split: if_splits)
  have entry: "\<exists>f. dict_get_default T a (Some (e * s)) = Some f \<and> e * s \<le> f"
    if E: "map_of ?E a = Some e" for a e
  proof (rule resolved_entry_bound [OF E_pos [OF E] fin s])
    show "t / e \<in> ?R" if "map_of T a = Some (Some t)" for t
      using that E by blast
    show "v \<noteq> None" if "map_of T a = Some v" for v
      using that by (rule some)
  qed
  from entry [of "''width''" w] obtain fw
    where fw: "dict_get_default T ''width'' (Some (w * s)) = Some fw" "w * s \<le> fw" by auto
  from entry [of "''depth''" d] obtain fd
    where fd: "dict_get_default T ''depth'' (Some (d * s)) = Some fd" "d * s \<le> fd" by auto
  from entry [of "''height''" h] obtain fh
    where fh: "dict_get_default T ''height'' (Some (h * s)) = Some fh" "h * s \<le> fh" by auto
  have "s \<in> ?R"
    unfolding s using fin nonempty by (rule Min_in)
  then obtain a1 t1 e1 where binding: "map_of T a1 = Some (Some t1)"
    "map_of ?E a1 = Some e1" "s = t1 / e1"
    by blast
  have s_pos: "0 < s"
    using binding(3) val_pos [OF binding(1)] E_pos [OF binding(2)] by simp
  have "e1 * s = t1"
    using binding(3) E_pos [OF binding(2)] by simp
  then have "dict_get_default T a1 (Some (e1 * s)) = Some (e1 * s)"
    using binding(1) by (simp add: dict_get_default_def)
  moreover have "(a1 = ''width'' \<and> e1 = w) \<or> (a1 = ''depth'' \<and> e1 = d)
      \<or> (a1 = ''height'' \<and> e1 = h)"
    using binding(2) by (auto split: if_splits)
  ultimately have tight: "w * s = fw \<or> d * s = fd \<or> h * s = fh"
    using fw(1) fd(1) fh(1) by auto
  have "center_and_align obj (Some T) =
             Inr ([(''width'', Some fw), (''depth'', Some fd), (''height'', Some fh)],
                  [(''width'', w * s), (''depth'', d * s), (''height'', h * s)],
                  recenter (apply_scale s (prepare obj)))"
    using run by (simp only: fw(1) fd(1) fh(1))
  with s_pos fw(2) fd(2) fh(2) tight show ?thesis by blast
qed

text \<open>A run whose target names all three axes, each at least the extent and one equal to
  it, has scale 1 and returns the target.\<close>

lemma full_target_run:
  fixes w d h fw fd fh :: real
  assumes ext: "model_sizes_of (get_bounding_box (prepare obj)) =
                  Inr [(''width'', w), (''depth'', d), (''height'', h)]"
    and pos: "0 < w" "0 < d" "0 < h"
    and le: "w \<le> fw" "d \<le> fd" "h \<le> fh"
    and tight: "w = fw \<or> d = fd \<or> h = fh"
  shows "center_and_align obj
           (Some [(''width'', Some fw), (''depth'', Some fd), (''height'', Some fh)]) =
         Inr ([(''width'', Some fw), (''depth'', Some fd), (''height'', Some fh)],
              [(''width'', w), (''depth'', d), (''height'', h)],
              recenter (apply_scale 1 (prepare obj)))"
proof -
  let ?E = "[(''width'', w), (''depth'', d), (''height'', h)]"
  let ?T = "[(''width'', Some fw), (''depth'', Some fd), (''height'', Some fh)]"
  let ?R = "{t / e |k t e. map_of ?T k = Some (Some t) \<and> map_of ?E k = Some e}"
  have nz: "w \<noteq> 0" "d \<noteq> 0" "h \<noteq> 0" using pos by simp_all
  have keys: "set (map fst ?T) \<subseteq> {''width'', ''depth'', ''height''}" by simp
  have prov: "map_of ?T ''width'' = Some (Some fw)" by simp
  from center_and_align_provided [OF ext nz keys prov]
  obtain s where run: "center_and_align obj (Some ?T) =
        Inr ([(''width'', dict_get_default ?T ''width'' (Some (w * s))),
              (''depth'', dict_get_default ?T ''depth'' (Some (d * s))),
              (''height'', dict_get_default ?T ''height'' (Some (h * s)))],
             [(''width'', w * s), (''depth'', d * s), (''height'', h * s)],
             recenter (apply_scale s (prepare obj)))"
    and s: "s = Min ?R" and fin: "finite ?R"
    by (elim exE conjE) (rule that)
  have "Min ?R = 1"
  proof (rule Min_eqI [OF fin])
    fix r assume "r \<in> ?R"
    then obtain k t e where k: "map_of ?T k = Some (Some t)" "map_of ?E k = Some e" "r = t / e"
      by blast
    then have "(t = fw \<and> e = w) \<or> (t = fd \<and> e = d) \<or> (t = fh \<and> e = h)"
      by (auto split: if_splits)
    then show "1 \<le> r"
      using k(3) pos le by auto
  next
    from tight consider "w = fw" | "d = fd" | "h = fh" by blast
    then show "1 \<in> ?R"
    proof cases
      case 1
      then have "map_of ?T ''width'' = Some (Some fw) \<and> map_of ?E ''width'' = Some w
          \<and> 1 = fw / w"
        using pos by simp
      then show ?thesis by blast
    next
      case 2
      then have "map_of ?T ''depth'' = Some (Some fd) \<and> map_of ?E ''depth'' = Some d
          \<and> 1 = fd / d"
        using pos by simp
      then show ?thesis by blast
    next
      case 3
      then have "map_of ?T ''height'' = Some (Some fh) \<and> map_of ?E ''height'' = Some h
          \<and> 1 = fh / h"
        using pos by simp
      then show ?thesis by blast
    qed
  qed
  with s have "s = 1" by simp
  with run show ?thesis by (simp add: dict_get_default_def)
qed

text \<open>
  Claim C6. After a run with strictly positive extents and a non-empty target envelope of
  strictly positive values, a second run on any object whose extents are the scaled sizes
  of the first, with the first run's final dimensions as the target on all three axes,
  applies the scale 1 and returns the same final dimensions (and the same scaled sizes).
\<close>

theorem center_and_align_fixed_point:
  fixes w d h :: real
  assumes ext: "model_sizes_of (get_bounding_box (prepare obj)) =
                  Inr [(''width'', w), (''depth'', d), (''height'', h)]"
    and pos: "0 < w" "0 < d" "0 < h"
    and keys: "set (map fst T) \<subseteq> {''width'', ''depth'', ''height''}"
    and vals: "\<forall>(k, v) \<in> set T. \<exists>t. v = Some t \<and> 0 < t"
    and ne: "T \<noteq> []"
    and first: "center_and_align obj (Some T) = Inr (final, scaled, obj1)"
    and ext2: "model_sizes_of (get_bounding_box (prepare obj2)) = Inr scaled"
  shows "center_and_align obj2 (Some final) =
           Inr (final, scaled, recenter (apply_scale 1 (prepare obj2)))"
proof -
  from first_run_facts [OF ext pos keys vals ne]
  obtain s fw fd fh where run: "center_and_align obj (Some T) =
             Inr ([(''width'', Some fw), (''depth'', Some fd), (''height'', Some fh)],
                  [(''width'', w * s), (''depth'', d * s), (''height'', h * s)],
                  recenter (apply_scale s (prepare obj)))"
    and s: "0 < s" and le: "w * s \<le> fw" "d * s \<le> fd" "h * s \<le> fh"
    and tight: "w * s = fw \<or> d * s = fd \<or> h * s = fh"
    by (elim exE conjE) (rule that)
  from run first have final: "final = [(''width'', Some fw), (''depth'', Some fd), (''height'', Some fh)]"
    and scaled: "scaled = [(''width'', w * s), (''depth'', d * s), (''height'', h * s)]"
    by simp_all
  have pos2: "0 < w * s" "0 < d * s" "0 < h * s"
    using pos s by simp_all
  show ?thesis
    unfolding final scaled
    by (rule full_target_run [OF ext2 [unfolded scaled] pos2 le tight])
qed

text \<open>The scenario of the specification, run twice: the second run is on the object that
  the first run returns.\<close>

theorem center_and_align_fixed_point_witness:
  "center_and_align
     \<lparr>bound_box = box_corners (vec 0 0 0) (vec 50 30 80), location = vec 7 8 9,
      scale = vec 1 1 1\<rparr> (Some [(''width'', Some 100)]) =
     Inr ([(''width'', Some 100), (''depth'', Some 60), (''height'', Some 160)],
          [(''width'', 100), (''depth'', 60), (''height'', 160)],
          recenter (apply_scale 2 (prepare
            \<lparr>bound_box = box_corners (vec 0 0 0) (vec 50 30 80), location = vec 7 8 9,
             scale = vec 1 1 1\<rparr>)))
   \<and> model_sizes_of (get_bounding_box (prepare (recenter (apply_scale 2 (prepare
            \<lparr>bound_box = box_corners (vec 0 0 0) (vec 50 30 80), location = vec 7 8 9,
             scale = vec 1 1 1\<rparr>))))) =
       Inr [(''width'', 100), (''depth'', 60), (''height'', 160)]
   \<and> center_and_align
         (recenter (apply_scale 2 (prepare
            \<lparr>bound_box = box_corners (vec 0 0 0) (vec 50 30 80), location = vec 7 8 9,
             scale = vec 1 1 1\<rparr>)))
         (Some [(''width'', Some 100), (''depth'', Some 60), (''height'', Some 160)]) =
       Inr ([(''width'', Some 100), (''depth'', Some 60), (''height'', Some 160)],
            [(''width'', 100), (''depth'', 60), (''height'', 160)],
            recenter (apply_scale 1 (prepare (recenter (apply_scale 2 (prepare
              \<lparr>bound_box = box_corners (vec 0 0 0) (vec 50 30 80), location = vec 7 8 9,
               scale = vec 1 1 1\<rparr>))))))"
proof -
  let ?obj = "\<lparr>bound_box = box_corners (vec 0 0 0) (vec 50 30 80), location = vec 7 8 9,
                scale = vec 1 1 1\<rparr>"
  let ?T = "[(''width'', Some (100::real))]"
  let ?obj1 = "recenter (apply_scale 2 (prepare ?obj))"
  have h1: "model_sizes_of (get_bounding_box (prepare ?obj)) =
              Inr [(''width'', 50), (''depth'', 30), (''height'', 80)]"
    by (simp add: eval_defs)
  have h2: "(0::real) < 50" "(0::real) < 30" "(0::real) < 80" by simp_all
  have h3: "set (map fst ?T) \<subseteq> {''width'', ''depth'', ''height''}" by simp
  have h4: "\<forall>(k, v) \<in> set ?T. \<exists>t. v = Some t \<and> 0 < t" by simp
  have h5: "?T \<noteq> []" by simp
  have h6: "center_and_align ?obj (Some ?T) =
     Inr ([(''width'', Some 100), (''depth'', Some 60), (''height'', Some 160)],
          [(''width'', 100), (''depth'', 60), (''height'', 160)], ?obj1)"
    by (simp add: center_and_align_unfold [OF h1] solve_scale_def dict_get_def
          dict_get_default_def py_div_def)
  have h7: "model_sizes_of (get_bounding_box (prepare ?obj1)) =
       Inr [(''width'', 100), (''depth'', 60), (''height'', 160)]"
    by (simp add: eval_defs recenter_def apply_scale_def)
  from h6 h7 center_and_align_fixed_point [OF h1 h2 h3 h4 h5 h6 h7]
  show ?thesis by (intro conjI)
qed

end
